theory Spec2Isabelle
  imports Main
begin

section \<open>JavaScript strings and truthiness\<close>

text \<open>
  A string is the list of the bytes of its UTF-8 encoding, so the ASCII range is one
  byte per character. \<open>None\<close> stands for \<open>null\<close>/\<open>undefined\<close>.
\<close>

text \<open>
  The characters that \<open>String.prototype.trim\<close> removes, in UTF-8: tab, line feed,
  vertical tab, form feed, carriage return, space, U+00A0, U+1680, U+2000 to U+200A,
  U+2028, U+2029, U+202F, U+205F, U+3000 and U+FEFF.
\<close>

definition whiteSpace :: "string list" where
  "whiteSpace =
     [[CHR 0x09], [CHR 0x0A], [CHR 0x0B], [CHR 0x0C], [CHR 0x0D], [CHR 0x20],
      [CHR 0xC2, CHR 0xA0],
      [CHR 0xE1, CHR 0x9A, CHR 0x80],
      [CHR 0xE2, CHR 0x80, CHR 0x80], [CHR 0xE2, CHR 0x80, CHR 0x81],
      [CHR 0xE2, CHR 0x80, CHR 0x82], [CHR 0xE2, CHR 0x80, CHR 0x83],
      [CHR 0xE2, CHR 0x80, CHR 0x84], [CHR 0xE2, CHR 0x80, CHR 0x85],
      [CHR 0xE2, CHR 0x80, CHR 0x86], [CHR 0xE2, CHR 0x80, CHR 0x87],
      [CHR 0xE2, CHR 0x80, CHR 0x88], [CHR 0xE2, CHR 0x80, CHR 0x89],
      [CHR 0xE2, CHR 0x80, CHR 0x8A],
      [CHR 0xE2, CHR 0x80, CHR 0xA8], [CHR 0xE2, CHR 0x80, CHR 0xA9],
      [CHR 0xE2, CHR 0x80, CHR 0xAF],
      [CHR 0xE2, CHR 0x81, CHR 0x9F],
      [CHR 0xE3, CHR 0x80, CHR 0x80],
      [CHR 0xEF, CHR 0xBB, CHR 0xBF]]"

fun dropPrefix :: "string \<Rightarrow> string \<Rightarrow> string option" where
  "dropPrefix [] s = Some s"
| "dropPrefix (c # cs) [] = None"
| "dropPrefix (c # cs) (d # ds) = (if c = d then dropPrefix cs ds else None)"

fun firstStrip :: "string list \<Rightarrow> string \<Rightarrow> string option" where
  "firstStrip [] s = None"
| "firstStrip (c # cs) s =
     (case dropPrefix c s of None \<Rightarrow> firstStrip cs s | Some rest \<Rightarrow> Some rest)"

text \<open>
  Removing leading characters of a given set for as long as there is one. No encoding
  of a character is empty, so what is left is always shorter.
\<close>

function stripAll :: "string list \<Rightarrow> string \<Rightarrow> string" where
  "stripAll codes s =
     (case firstStrip codes s of
        None \<Rightarrow> s
      | Some rest \<Rightarrow> if length rest < length s then stripAll codes rest else s)"
  by pat_completeness auto
termination
  by (relation "measure (\<lambda>(codes, s). length s)") auto

declare stripAll.simps [simp del]

definition trim :: "string \<Rightarrow> string" where
  "trim s = rev (stripAll (map rev whiteSpace) (rev (stripAll whiteSpace s)))"

text \<open>
  \<open>toLowerCase\<close> on the letters A to Z; bytes of characters outside ASCII are left as
  they are.
\<close>

definition lowerChar :: "char \<Rightarrow> char" where
  "lowerChar c =
     (case map_of (zip ''ABCDEFGHIJKLMNOPQRSTUVWXYZ'' ''abcdefghijklmnopqrstuvwxyz'') c of
        None \<Rightarrow> c
      | Some l \<Rightarrow> l)"

definition toLowerCase :: "string \<Rightarrow> string" where
  "toLowerCase s = map lowerChar s"

definition truthy :: "string option \<Rightarrow> bool" where
  "truthy v = (case v of None \<Rightarrow> False | Some s \<Rightarrow> s \<noteq> [])"

definition orEmpty :: "string option \<Rightarrow> string" where
  \<comment> \<open>\<open>v || ""\<close>\<close>
  "orEmpty v = (case v of None \<Rightarrow> [] | Some s \<Rightarrow> s)"

fun join :: "string \<Rightarrow> string list \<Rightarrow> string" where
  "join sep [] = []"
| "join sep [x] = x"
| "join sep (x # y # ys) = x @ sep @ join sep (y # ys)"

section \<open>The attendees collection\<close>

record row =
  name :: string
  prn :: string
  email :: string
  mobile :: string
  year :: string

text \<open>
  A stored attendee document. Documents are schemaless: \<open>eventId\<close> is \<open>None\<close>
  when the field is absent, \<open>checkInTime\<close> is \<open>None\<close> when it is \<open>null\<close>.
\<close>

record attendee = row +
  qrData :: string
  checkedIn :: bool
  checkInTime :: "nat option"
  createdAt :: nat
  eventId :: "string option"

type_synonym clause = "string \<times> string"
type_synonym collection = "(nat \<times> attendee) list"

definition fieldOf :: "attendee \<Rightarrow> string \<Rightarrow> string option" where
  "fieldOf a f =
     (if f = ''name'' then Some (name a)
      else if f = ''prn'' then Some (prn a)
      else if f = ''email'' then Some (email a)
      else if f = ''mobile'' then Some (mobile a)
      else if f = ''year'' then Some (year a)
      else if f = ''qrData'' then Some (qrData a)
      else if f = ''eventId'' then eventId a
      else None)"

definition matches :: "clause list \<Rightarrow> attendee \<Rightarrow> bool" where
  \<comment> \<open>the conjunction of \<open>.where(f, "==", v)\<close> filters\<close>
  "matches cs a = list_all (\<lambda>(f, v). fieldOf a f = Some v) cs"

definition runQuery :: "clause list \<Rightarrow> collection \<Rightarrow> collection" where
  \<comment> \<open>\<open>attendeesRef.where(...).limit(1).get()\<close>: the first match, if any\<close>
  "runQuery cs ds = take 1 (filter (\<lambda>(i, a). matches cs a) ds)"

datatype cause = StoreError string | TimedOut nat

text \<open>
  What the store does with one request: it performs it and answers after so many
  milliseconds, it refuses it after so many milliseconds with a cause, or it never
  answers.
\<close>

datatype reply = Answer nat | Refuse nat string | Silent

datatype store_op =
    Get "clause list"
  | Add attendee
  | UpdateCheckedIn nat

text \<open>
  The store as the page sees it: \<open>docs\<close> is the attendees collection in the order in
  which queries return it, \<open>trace\<close> the requests issued so far, \<open>net n\<close> what the store
  does with request number \<open>n\<close>, and \<open>clock\<close> the server time.
\<close>

record world =
  docs :: collection
  trace :: "store_op list"
  net :: "nat \<Rightarrow> reply"
  clock :: nat

definition freshId :: "collection \<Rightarrow> nat" where
  "freshId ds = Suc (fold max (map fst ds) 0)"

fun effectOf :: "store_op \<Rightarrow> nat \<Rightarrow> collection \<Rightarrow> collection" where
  "effectOf (Get cs) now ds = ds"
| "effectOf (Add a) now ds = ds @ [(freshId ds, a\<lparr>createdAt := now\<rparr>)]"
| "effectOf (UpdateCheckedIn i) now ds =
     map (\<lambda>(j, a). if j = i then (j, a\<lparr>checkedIn := True, checkInTime := Some now\<rparr>)
                    else (j, a)) ds"

text \<open>
  A request that the store answers is carried out, however late the answer comes; a
  timeout on the caller's side only decides what the caller gets to see.
\<close>

definition perform :: "store_op \<Rightarrow> world \<Rightarrow> reply \<times> world" where
  "perform op w =
     (let r = net w (length (trace w))
      in (r, w\<lparr>docs := (case r of Answer d \<Rightarrow> effectOf op (clock w) (docs w)
                                | Refuse d c \<Rightarrow> docs w
                                | Silent \<Rightarrow> docs w),
               trace := trace w @ [op],
               clock := Suc (clock w)\<rparr>))"

fun withTimeout :: "reply \<Rightarrow> nat \<Rightarrow> cause option" where
  \<comment> \<open>\<open>None\<close>: resolved in time; \<open>Some c\<close>: rejected with cause \<open>c\<close>\<close>
  "withTimeout (Answer d) ms = (if d < ms then None else Some (TimedOut ms))"
| "withTimeout (Refuse d c) ms = (if d < ms then Some (StoreError c) else Some (TimedOut ms))"
| "withTimeout Silent ms = Some (TimedOut ms)"

section \<open>Observable effects\<close>

datatype view_state = StDefault | StLoading | StSuccess | StAlready | StNotFound

datatype toast_type = TSuccess | TError | TWarning | TInfo

datatype container = AttendeeDetails | AttendeeDetailsAlready

datatype effect =
    ShowState view_state
  | ShowToast string toast_type
  | ConsoleError string cause
  | AlreadyTime "nat option"
  | RenderAttendeeDetails container attendee
  | ShowResults nat nat nat

fun shownState :: "effect list \<Rightarrow> view_state \<Rightarrow> view_state" where
  "shownState [] s = s"
| "shownState (ShowState v # es) s = shownState es v"
| "shownState (e # es) s = shownState es s"

definition resultState :: "effect list \<Rightarrow> view_state" where
  \<comment> \<open>the state last passed to \<open>showState\<close>\<close>
  "resultState fx = shownState fx StDefault"

section \<open>Module state of the page\<close>

text \<open>
  The module-level variables that the operations read: \<open>selectedEventId\<close> of the
  events module, \<open>parsedData\<close> and \<open>qrDataMap\<close> of the upload module.
\<close>

record page =
  selectedEventId :: "string option"
  parsedData :: "row list"
  qrDataMap :: "string \<rightharpoonup> string"

section \<open>Check-in\<close>

text \<open>
  \<open>lookupAndCheckIn\<close> runs in two stretches separated by waiting for the store: up to
  the answer of the query, and from there up to the answer of the update.
\<close>

datatype pc = Entry | Updating nat attendee | Returned | Suspended

text \<open>The two \<open>where\<close> filters of the lookup.\<close>

definition lookupQuery :: "page \<Rightarrow> string \<Rightarrow> clause list" where
  "lookupQuery pg p = [(''prn'', p), (''eventId'', orEmpty (selectedEventId pg))]"

definition checkinError :: "cause \<Rightarrow> effect list" where
  "checkinError c =
     [ConsoleError ''Check-in error:'' c,
      ShowState StNotFound,
      ShowToast ''Error during check-in. Please try again.'' TError]"

fun checkinStep :: "page \<Rightarrow> string \<Rightarrow> pc \<Rightarrow> world \<Rightarrow> pc \<times> effect list \<times> world" where
  "checkinStep pg p Entry w =
     (if \<not> truthy (selectedEventId pg) then
        (Returned,
         [ShowState StLoading,
          ShowToast ''Please select an event first from the Events page!'' TWarning,
          ShowState StDefault], w)
      else
        (case perform (Get (lookupQuery pg p)) w of
           (Silent, w') \<Rightarrow> (Suspended, [ShowState StLoading], w')
         | (Refuse d c, w') \<Rightarrow> (Returned, ShowState StLoading # checkinError (StoreError c), w')
         | (Answer d, w') \<Rightarrow>
             (case runQuery (lookupQuery pg p) (docs w') of
                [] \<Rightarrow>
                  (Returned,
                   [ShowState StLoading,
                    ShowState StNotFound,
                    ShowToast ''No registration found for this QR code'' TError], w')
              | (i, data) # rest \<Rightarrow>
                  (if checkedIn data then
                     (Returned,
                      [ShowState StLoading,
                       AlreadyTime (checkInTime data),
                       RenderAttendeeDetails AttendeeDetailsAlready data,
                       ShowState StAlready,
                       ShowToast (name data @ '' is already checked in!'') TWarning], w')
                   else (Updating i data, [ShowState StLoading], w')))))"
| "checkinStep pg p (Updating i data) w =
     (case perform (UpdateCheckedIn i) w of
        (Silent, w') \<Rightarrow> (Suspended, [], w')
      | (Refuse d c, w') \<Rightarrow> (Returned, checkinError (StoreError c), w')
      | (Answer d, w') \<Rightarrow>
          (Returned,
           [RenderAttendeeDetails AttendeeDetails data,
            ShowState StSuccess,
            ShowToast (name data @ '' checked in successfully!'') TSuccess], w'))"
| "checkinStep pg p Returned w = (Returned, [], w)"
| "checkinStep pg p Suspended w = (Suspended, [], w)"

definition lookupAndCheckIn :: "page \<Rightarrow> string \<Rightarrow> world \<Rightarrow> effect list \<times> world" where
  "lookupAndCheckIn pg p w =
     (case checkinStep pg p Entry w of
        (pc1, fx1, w1) \<Rightarrow>
          (case checkinStep pg p pc1 w1 of
             (pc2, fx2, w2) \<Rightarrow> (fx1 @ fx2, w2)))"

section \<open>Roster upload\<close>

definition REQUIRED_COLUMNS :: "string list" where
  "REQUIRED_COLUMNS = [''name'', ''prn'', ''email'', ''mobile'', ''year'']"

definition transformHeader :: "string \<Rightarrow> string" where
  "transformHeader h = toLowerCase (trim h)"

text \<open>A parsed CSV row: the cells under their (transformed) header names.\<close>

type_synonym csv_row = "(string \<times> string) list"

definition cell :: "csv_row \<Rightarrow> string \<Rightarrow> string option" where
  "cell r k = map_of r k"

definition keepRow :: "csv_row \<Rightarrow> bool" where
  \<comment> \<open>\<open>row.name && row.prn\<close>\<close>
  "keepRow r = (truthy (cell r ''name'') \<and> truthy (cell r ''prn''))"

definition cleanRow :: "csv_row \<Rightarrow> row" where
  "cleanRow r =
     \<lparr>name = trim (orEmpty (cell r ''name'')),
      prn = trim (orEmpty (cell r ''prn'')),
      email = trim (orEmpty (cell r ''email'')),
      mobile = trim (orEmpty (cell r ''mobile'')),
      year = trim (orEmpty (cell r ''year''))\<rparr>"

definition digit :: "nat \<Rightarrow> char" where
  "digit n = ''0123456789'' ! n"

function showNat :: "nat \<Rightarrow> string" where
  "showNat n = (if n < 10 then [digit n] else showNat (n div 10) @ [digit (n mod 10)])"
  by pat_completeness auto
termination
  by (relation "measure id") auto

definition resetUpload :: "page \<Rightarrow> page" where
  "resetUpload pg = pg\<lparr>parsedData := [], qrDataMap := Map.empty\<rparr>"

definition missingColumns :: "string list \<Rightarrow> string list" where
  "missingColumns metaFields =
     (let headers = map toLowerCase metaFields
      in filter (\<lambda>col. col \<notin> set headers) REQUIRED_COLUMNS)"

text \<open>
  The \<open>complete\<close> callback of the parser in \<open>onFileReady\<close>: \<open>metaFields\<close> is
  \<open>results.meta.fields\<close>, \<open>rows\<close> is \<open>results.data\<close>, and \<open>generateQRCode\<close> is the
  code-image library applied to a PRN.
\<close>

definition onFileReady ::
  "(string \<Rightarrow> string) \<Rightarrow> string list \<Rightarrow> csv_row list \<Rightarrow> page \<Rightarrow> effect list \<times> page" where
  "onFileReady generateQRCode metaFields rows pg =
     (let missing = missingColumns metaFields in
      if length missing > 0 then
        ([ShowToast (''Missing columns: '' @ join '', '' missing) TError], resetUpload pg)
      else
        (let cleaned = map cleanRow (filter keepRow rows) in
         if length cleaned = 0 then
           ([ShowToast ''CSV has no valid rows'' TError], resetUpload pg)
         else
           ([ShowToast (''Parsed '' @ showNat (length cleaned) @ '' records ''
                        @ [CHR 0xE2, CHR 0x80, CHR 0x94] @ '' generating QR codes...'') TSuccess],
            pg\<lparr>parsedData := cleaned,
               qrDataMap := fold (\<lambda>r m. m(prn r \<mapsto> generateQRCode (prn r))) cleaned Map.empty\<rparr>)))"

record progress =
  uploaded :: nat
  skipped :: nat
  failed :: nat
  errors :: "effect list"

definition docData :: "(string \<rightharpoonup> string) \<Rightarrow> row \<Rightarrow> attendee" where
  \<comment> \<open>\<open>createdAt\<close> is the server-timestamp sentinel; the store fills it in on write\<close>
  "docData qm r =
     \<lparr>name = name r, prn = prn r, email = email r, mobile = mobile r, year = year r,
      qrData = orEmpty (qm (prn r)),
      checkedIn = False,
      checkInTime = None,
      createdAt = 0,
      eventId = None\<rparr>"

definition rowFailed :: "row \<Rightarrow> cause \<Rightarrow> progress \<Rightarrow> progress" where
  "rowFailed r err c =
     c\<lparr>failed := failed c + 1,
       errors := errors c @ [ConsoleError (''Failed to process '' @ prn r @ '':'') err]\<rparr>"

text \<open>One pass of the loop body of \<open>processAndUpload\<close>.\<close>

definition uploadRow :: "(string \<rightharpoonup> string) \<Rightarrow> row \<Rightarrow> progress \<times> world \<Rightarrow> progress \<times> world" where
  "uploadRow qm r = (\<lambda>(c, w).
     (case perform (Get [(''prn'', prn r)]) w of
        (rep, w1) \<Rightarrow>
          (case withTimeout rep 10000 of
             Some err \<Rightarrow> (rowFailed r err c, w1)
           | None \<Rightarrow>
               (if runQuery [(''prn'', prn r)] (docs w1) \<noteq> [] then
                  (c\<lparr>skipped := skipped c + 1\<rparr>, w1)
                else
                  (case perform (Add (docData qm r)) w1 of
                     (rep2, w2) \<Rightarrow>
                       (case withTimeout rep2 10000 of
                          Some err \<Rightarrow> (rowFailed r err c, w2)
                        | None \<Rightarrow> (c\<lparr>uploaded := uploaded c + 1\<rparr>, w2)))))))"

fun uploadRows :: "(string \<rightharpoonup> string) \<Rightarrow> row list \<Rightarrow> progress \<times> world \<Rightarrow> progress \<times> world" where
  "uploadRows qm [] s = s"
| "uploadRows qm (r # rs) s = uploadRows qm rs (uploadRow qm r s)"

definition cannotReach :: string where
  "cannotReach =
     ''Cannot reach Firebase! Disable ad-blockers / privacy extensions for this site, then retry.''"

definition completeToast :: "progress \<Rightarrow> effect" where
  "completeToast c =
     ShowToast (''Upload complete: '' @ showNat (uploaded c) @ '' added, ''
                @ showNat (skipped c) @ '' skipped, ''
                @ showNat (failed c) @ '' failed'')
               (if failed c > 0 then TWarning else TSuccess)"

definition processAndUpload :: "page \<Rightarrow> world \<Rightarrow> effect list \<times> world" where
  "processAndUpload pg w =
     (if length (parsedData pg) = 0 then ([], w)
      else
        (case perform (Get []) w of
           (rep, w0) \<Rightarrow>
             (case withTimeout rep 8000 of
                Some err \<Rightarrow>
                  ([ConsoleError ''Firebase connectivity check failed:'' err,
                    ShowToast cannotReach TError], w0)
              | None \<Rightarrow>
                  (case uploadRows (qrDataMap pg) (parsedData pg)
                          (\<lparr>uploaded = 0, skipped = 0, failed = 0, errors = []\<rparr>, w0) of
                     (c, w') \<Rightarrow>
                       (errors c @
                        [ShowResults (uploaded c) (skipped c) (failed c), completeToast c],
                        w')))))"

section \<open>Two overlapping check-in attempts\<close>

text \<open>
  Two calls of \<open>lookupAndCheckIn\<close> for the same code, each advancing from one wait to
  the next; the schedule says whose turn it is (\<open>True\<close>: the first attempt).
\<close>

type_synonym attempt = "pc \<times> effect list"

definition advance :: "page \<Rightarrow> string \<Rightarrow> attempt \<Rightarrow> world \<Rightarrow> attempt \<times> world" where
  "advance pg p a w =
     (case checkinStep pg p (fst a) w of (pc', fx, w') \<Rightarrow> ((pc', snd a @ fx), w'))"

fun interleave :: "bool list \<Rightarrow> page \<Rightarrow> string \<Rightarrow> attempt \<times> attempt \<times> world
                    \<Rightarrow> attempt \<times> attempt \<times> world" where
  "interleave [] pg p s = s"
| "interleave (b # bs) pg p (a1, a2, w) =
     (if b then (case advance pg p a1 w of (a1', w') \<Rightarrow> interleave bs pg p (a1', a2, w'))
      else (case advance pg p a2 w of (a2', w') \<Rightarrow> interleave bs pg p (a1, a2', w')))"

section \<open>Notions used in the statements\<close>



definition timeConsistent :: "attendee \<Rightarrow> bool" where
  "timeConsistent a = (checkedIn a \<longleftrightarrow> checkInTime a \<noteq> None)"

definition allConsistent :: "collection \<Rightarrow> bool" where
  "allConsistent ds = list_all (\<lambda>(i, a). timeConsistent a) ds"


definition answered :: "reply \<Rightarrow> bool" where
  "answered r = (case r of Answer d \<Rightarrow> True | Refuse d c \<Rightarrow> False | Silent \<Rightarrow> False)"

definition firstAttempt :: "attempt \<times> attempt \<times> world \<Rightarrow> view_state" where
  "firstAttempt s = resultState (snd (fst s))"

definition secondAttempt :: "attempt \<times> attempt \<times> world \<Rightarrow> view_state" where
  "secondAttempt s = resultState (snd (fst (snd s)))"

definition bothWaiting :: "world \<Rightarrow> attempt \<times> attempt \<times> world" where
  "bothWaiting w = ((Entry, []), (Entry, []), w)"

text \<open>The collection after document \<open>i\<close> was checked in at time \<open>t\<close>.\<close>

definition checkedInAt :: "nat \<Rightarrow> nat \<Rightarrow> collection \<Rightarrow> collection" where
  "checkedInAt i t ds =
     map (\<lambda>(j, b). if j = i then (j, b\<lparr>checkedIn := True, checkInTime := Some t\<rparr>) else (j, b)) ds"

text \<open>
  A raw cell that is present and not the empty string, and a parsed row with each of
  the five fields trimmed, written without the upload module's own functions.
\<close>

definition rawPresent :: "csv_row \<Rightarrow> string \<Rightarrow> bool" where
  "rawPresent r k = (\<exists>v. map_of r k = Some v \<and> v \<noteq> [])"

definition trimmedRow :: "csv_row \<Rightarrow> row" where
  "trimmedRow r =
     \<lparr>name = trim (case map_of r ''name'' of None \<Rightarrow> [] | Some v \<Rightarrow> v),
      prn = trim (case map_of r ''prn'' of None \<Rightarrow> [] | Some v \<Rightarrow> v),
      email = trim (case map_of r ''email'' of None \<Rightarrow> [] | Some v \<Rightarrow> v),
      mobile = trim (case map_of r ''mobile'' of None \<Rightarrow> [] | Some v \<Rightarrow> v),
      year = trim (case map_of r ''year'' of None \<Rightarrow> [] | Some v \<Rightarrow> v)\<rparr>"

text \<open>A string that consists only of characters that \<open>trim\<close> removes.\<close>

inductive whitespaceOnly :: "string \<Rightarrow> bool" where
  empty: "whitespaceOnly []"
| more: "c \<in> set whiteSpace \<Longrightarrow> whitespaceOnly s \<Longrightarrow> whitespaceOnly (c @ s)"

section \<open>Scenario data\<close>

definition rowA :: row where
  "rowA = \<lparr>name = ''A'', prn = ''1'', email = ''a@x.com'', mobile = ''1'', year = ''FE''\<rparr>"

definition rowB :: row where
  "rowB = \<lparr>name = ''B'', prn = ''2'', email = ''b@x.com'', mobile = ''2'', year = ''SE''\<rparr>"

definition attendeeA :: attendee where
  "attendeeA =
     \<lparr>name = ''A'', prn = ''1'', email = ''a@x.com'', mobile = ''1'', year = ''FE'',
      qrData = ''qr'', checkedIn = False, checkInTime = None, createdAt = 7,
      eventId = Some ''E1''\<rparr>"


definition allColumns :: "string list" where
  "allColumns = [''name'', ''prn'', ''email'', ''mobile'', ''year'']"

definition blankNameRow :: csv_row where
  "blankNameRow =
     [(''name'', '' ''), (''prn'', ''''), (''email'', ''a@x.com''), (''mobile'', ''1''), (''year'', ''FE'')]"

definition blankNameOnly :: csv_row where
  "blankNameOnly =
     [(''name'', ''  ''), (''prn'', ''7''), (''email'', ''a@x.com''), (''mobile'', ''1''), (''year'', ''FE'')]"

definition attendeeElsewhere :: attendee where
  "attendeeElsewhere = attendeeA\<lparr>eventId := Some ''E2''\<rparr>"

definition qrOf :: "string \<Rightarrow> string" where
  "qrOf t = ''qr:'' @ t"

definition prompt :: "nat \<Rightarrow> reply" where
  "prompt n = Answer 5"


definition silent :: "nat \<Rightarrow> reply" where
  "silent n = Silent"

definition store :: "collection \<Rightarrow> (nat \<Rightarrow> reply) \<Rightarrow> world" where
  "store ds nt = \<lparr>docs = ds, trace = [], net = nt, clock = 0\<rparr>"

definition session :: "string option \<Rightarrow> row list \<Rightarrow> page" where
  "session sel rs = \<lparr>selectedEventId = sel, parsedData = rs, qrDataMap = Map.empty\<rparr>"

section \<open>Store requests\<close>

lemma perform_Get:
  "perform (Get cs) w =
     (net w (length (trace w)), w\<lparr>trace := trace w @ [Get cs], clock := Suc (clock w)\<rparr>)"
  by (simp add: perform_def Let_def split: reply.splits)

lemma perform_Answer:
  assumes "net w (length (trace w)) = Answer d"
  shows "perform op w =
           (Answer d, w\<lparr>docs := effectOf op (clock w) (docs w),
                         trace := trace w @ [op], clock := Suc (clock w)\<rparr>)"
  using assms by (simp add: perform_def Let_def)

section \<open>Roster upload: the connectivity probe\<close>

text \<open>
  C9. When the probe \<open>attendeesRef.limit(1).get()\<close>, raced against 8000 ms, is rejected
  or times out, \<open>processAndUpload\<close> logs the cause, shows the cannot-reach toast and
  returns: the only store request of the run is that one read, no write is issued and
  the documents are unchanged.
\<close>

theorem probe_failure_aborts_import:
  assumes rows: "parsedData pg \<noteq> []"
    and probe: "withTimeout (net w (length (trace w))) 8000 = Some err"
  shows "processAndUpload pg w =
           ([ConsoleError ''Firebase connectivity check failed:'' err,
             ShowToast cannotReach TError],
            w\<lparr>trace := trace w @ [Get []], clock := Suc (clock w)\<rparr>)
         \<and> docs (snd (processAndUpload pg w)) = docs w
         \<and> trace (snd (processAndUpload pg w)) = trace w @ [Get []]"
  using rows probe by (simp add: processAndUpload_def perform_Get)

theorem probe_failure_aborts_import_witness:
  "parsedData (session (Some ''E1'') [rowA]) \<noteq> []
   \<and> withTimeout (net (store [] silent) (length (trace (store [] silent)))) 8000
       = Some (TimedOut 8000)
   \<and> docs (snd (processAndUpload (session (Some ''E1'') [rowA]) (store [] silent))) = []
   \<and> trace (snd (processAndUpload (session (Some ''E1'') [rowA]) (store [] silent))) = [Get []]"
  using probe_failure_aborts_import
          [of "session (Some ''E1'') [rowA]" "store [] silent" "TimedOut 8000"]
  by (simp add: silent_def store_def session_def)

section \<open>Roster upload: the per-row loop\<close>






lemma uploadRow_added:
  assumes q: "withTimeout (net w (length (trace w))) 10000 = None"
    and new: "runQuery [(''prn'', prn r)] (docs w) = []"
    and a: "withTimeout (net w (Suc (length (trace w)))) 10000 = None"
  shows "uploadRow qm r (c, w) =
           (c\<lparr>uploaded := uploaded c + 1\<rparr>,
            w\<lparr>docs := docs w @ [(freshId (docs w), (docData qm r)\<lparr>createdAt := Suc (clock w)\<rparr>)],
              trace := trace w @ [Get [(''prn'', prn r)], Add (docData qm r)],
              clock := Suc (Suc (clock w))\<rparr>)"
proof -
  obtain d where d: "net w (Suc (length (trace w))) = Answer d"
    using a by (cases "net w (Suc (length (trace w)))") (auto split: if_splits)
  let ?w1 = "w\<lparr>trace := trace w @ [Get [(''prn'', prn r)]], clock := Suc (clock w)\<rparr>"
  have "net ?w1 (length (trace ?w1)) = Answer d"
    using d by simp
  then have "perform (Add (docData qm r)) ?w1 =
      (Answer d, ?w1\<lparr>docs := effectOf (Add (docData qm r)) (clock ?w1) (docs ?w1),
                        trace := trace ?w1 @ [Add (docData qm r)], clock := Suc (clock ?w1)\<rparr>)"
    by (rule perform_Answer)
  with q new a d show ?thesis
    by (simp add: uploadRow_def perform_Get)
qed



section \<open>Check-in of an already checked-in attendee\<close>





section \<open>Check-in when the store fails\<close>






section \<open>Roster upload: missing columns\<close>

lemma missingColumns_empty_iff:
  "missingColumns metaFields = [] \<longleftrightarrow> set REQUIRED_COLUMNS \<subseteq> toLowerCase ` set metaFields"
  by (auto simp: missingColumns_def Let_def filter_empty_conv)

text \<open>
  C8. When the lower-cased header names do not cover \<open>name, prn, email, mobile, year\<close>,
  the \<open>complete\<close> callback shows \<open>"Missing columns: "\<close> followed by exactly the
  required names that are absent (in the order of \<open>REQUIRED_COLUMNS\<close>, joined by
  \<open>", "\<close>), resets the upload state so that \<open>parsedData\<close> is empty, and a later
  \<open>processAndUpload\<close> returns without any store request. The header
  \<open>name,prn,email\<close> gives the missing list \<open>["mobile", "year"]\<close>.
\<close>

theorem missing_columns_rejected:
  assumes lacking: "\<not> set REQUIRED_COLUMNS \<subseteq> toLowerCase ` set metaFields"
  shows "onFileReady generateQRCode metaFields rows pg =
           ([ShowToast (''Missing columns: '' @ join '', '' (missingColumns metaFields)) TError],
            resetUpload pg)
         \<and> missingColumns metaFields =
             filter (\<lambda>col. col \<notin> toLowerCase ` set metaFields)
               [''name'', ''prn'', ''email'', ''mobile'', ''year'']
         \<and> parsedData (snd (onFileReady generateQRCode metaFields rows pg)) = []
         \<and> processAndUpload (snd (onFileReady generateQRCode metaFields rows pg)) w = ([], w)
         \<and> missingColumns (map transformHeader [''name'', ''prn'', ''email'']) = [''mobile'', ''year'']
         \<and> join '', '' (missingColumns (map transformHeader [''name'', ''prn'', ''email'']))
             = ''mobile, year''"
proof -
  have nonempty: "missingColumns metaFields \<noteq> []"
    using lacking by (simp add: missingColumns_empty_iff)
  then have run: "onFileReady generateQRCode metaFields rows pg =
           ([ShowToast (''Missing columns: '' @ join '', '' (missingColumns metaFields)) TError],
            resetUpload pg)"
    by (simp add: onFileReady_def Let_def)
  have named: "missingColumns metaFields =
             filter (\<lambda>col. col \<notin> toLowerCase ` set metaFields)
               [''name'', ''prn'', ''email'', ''mobile'', ''year'']"
    by (simp add: missingColumns_def REQUIRED_COLUMNS_def Let_def)
  have example: "missingColumns (map transformHeader [''name'', ''prn'', ''email'']) = [''mobile'', ''year'']"
    by (simp add: missingColumns_def REQUIRED_COLUMNS_def transformHeader_def toLowerCase_def
        lowerChar_def trim_def whiteSpace_def stripAll.simps)
  have noop: "processAndUpload (resetUpload pg) w = ([], w)"
    by (simp add: processAndUpload_def resetUpload_def)
  have reset: "snd (onFileReady generateQRCode metaFields rows pg) = resetUpload pg"
    using run by simp
  have none: "parsedData (snd (onFileReady generateQRCode metaFields rows pg)) = []"
    using reset by (simp add: resetUpload_def)
  have idle: "processAndUpload (snd (onFileReady generateQRCode metaFields rows pg)) w = ([], w)"
    using reset noop by simp
  have joined: "join '', '' (missingColumns (map transformHeader [''name'', ''prn'', ''email'']))
             = ''mobile, year''"
    using example by simp
  from run named none idle example joined show ?thesis
    by blast
qed

theorem missing_columns_rejected_witness:
  "\<not> set REQUIRED_COLUMNS \<subseteq> toLowerCase ` set [''Name'', ''PRN'', ''Email'']
   \<and> onFileReady qrOf [''Name'', ''PRN'', ''Email''] [] (session (Some ''E1'') [rowA]) =
           ([ShowToast ''Missing columns: mobile, year'' TError], session (Some ''E1'') [])"
proof -
  have lacking: "\<not> set REQUIRED_COLUMNS \<subseteq> toLowerCase ` set [''Name'', ''PRN'', ''Email'']"
    by (simp add: REQUIRED_COLUMNS_def toLowerCase_def lowerChar_def)
  have "missingColumns [''Name'', ''PRN'', ''Email''] = [''mobile'', ''year'']"
    by (simp add: missingColumns_def REQUIRED_COLUMNS_def toLowerCase_def lowerChar_def)
  with missing_columns_rejected [OF lacking, of qrOf "[]" "session (Some ''E1'') [rowA]"] lacking
  show ?thesis
    by (simp add: resetUpload_def session_def)
qed

section \<open>Roster upload and the selected event\<close>

text \<open>
  C1 does not hold of the code. With event \<open>E1\<close> selected, a row with prn \<open>1\<close> is
  skipped because an attendee of event \<open>E2\<close> has that prn: the duplicate query filters
  on \<open>prn\<close> alone. Against an empty store the document added has no \<open>eventId\<close>, and
  the check-in of prn \<open>1\<close> under \<open>E1\<close> right after the upload finds nothing.
\<close>

theorem upload_not_scoped_to_event:
  "fst (processAndUpload (session (Some ''E1'') [rowA]) (store [(3, attendeeElsewhere)] prompt))
     = [ShowResults 0 1 0, ShowToast ''Upload complete: 0 added, 1 skipped, 0 failed'' TSuccess]
   \<and> trace (snd (processAndUpload (session (Some ''E1'') [rowA]) (store [(3, attendeeElsewhere)] prompt)))
     = [Get [], Get [(''prn'', ''1'')]]
   \<and> map eventId
        (map snd (docs (snd (processAndUpload (session (Some ''E1'') [rowA]) (store [] prompt)))))
     = [None]
   \<and> resultState (fst (lookupAndCheckIn (session (Some ''E1'') []) ''1''
        (snd (processAndUpload (session (Some ''E1'') [rowA]) (store [] prompt)))))
     = StNotFound"
  by (simp add: processAndUpload_def uploadRow_def perform_def Let_def session_def store_def
      prompt_def rowA_def attendeeElsewhere_def attendeeA_def runQuery_def matches_def fieldOf_def
      completeToast_def digit_def docData_def orEmpty_def lookupAndCheckIn_def lookupQuery_def
      truthy_def resultState_def freshId_def)

text \<open>
  C4 holds of the check-in and not of the upload. With no event selected,
  \<open>lookupAndCheckIn\<close> returns at its guard and leaves the store untouched, whereas
  \<open>processAndUpload\<close> issues the probe, the duplicate query and the add, and reports
  one attendee added.
\<close>

theorem upload_runs_without_event:
  "lookupAndCheckIn (session None []) ''1'' (store [] prompt)
     = ([ShowState StLoading,
         ShowToast ''Please select an event first from the Events page!'' TWarning,
         ShowState StDefault], store [] prompt)
   \<and> fst (processAndUpload (session None [rowA]) (store [] prompt))
     = [ShowResults 1 0 0, ShowToast ''Upload complete: 1 added, 0 skipped, 0 failed'' TSuccess]
   \<and> trace (snd (processAndUpload (session None [rowA]) (store [] prompt)))
     = [Get [], Get [(''prn'', ''1'')], Add (docData Map.empty rowA)]
   \<and> map fst (docs (snd (processAndUpload (session None [rowA]) (store [] prompt)))) = [1]"
  by (simp add: processAndUpload_def uploadRow_def perform_def Let_def session_def store_def
      prompt_def rowA_def runQuery_def matches_def fieldOf_def
      completeToast_def digit_def docData_def orEmpty_def lookupAndCheckIn_def
      truthy_def freshId_def)

section \<open>Two check-in attempts on one code\<close>

lemma alone_is_lookupAndCheckIn:
  "snd (fst (interleave [True, True] pg p ((Entry, []), a2, w))) = fst (lookupAndCheckIn pg p w)
   \<and> snd (snd (interleave [True, True] pg p ((Entry, []), a2, w))) = snd (lookupAndCheckIn pg p w)"
  by (simp add: advance_def lookupAndCheckIn_def split: prod.splits)

lemma fieldOf_update:
  "fieldOf (a\<lparr>checkedIn := x, checkInTime := y\<rparr>) f = fieldOf a f"
  by (auto simp: fieldOf_def)

lemma matches_update:
  "matches cs (a\<lparr>checkedIn := x, checkInTime := y\<rparr>) = matches cs a"
  by (simp add: matches_def fieldOf_update)

lemma runQuery_update:
  "runQuery cs (effectOf (UpdateCheckedIn i) now ds)
     = effectOf (UpdateCheckedIn i) now (runQuery cs ds)"
proof -
  let ?f = "\<lambda>(j, a). if j = i then (j, a\<lparr>checkedIn := True, checkInTime := Some now\<rparr>) else (j, a)"
  have "(\<lambda>(i, a). matches cs a) \<circ> ?f = (\<lambda>(i, a). matches cs a)"
    by (auto simp: fun_eq_iff matches_update)
  then show ?thesis
    by (simp add: runQuery_def filter_map take_map)
qed

lemma lookup_fresh:
  assumes sel: "truthy (selectedEventId pg)"
    and hit: "runQuery (lookupQuery pg p) (docs w) = [(i, a)]"
    and fresh: "\<not> checkedIn a"
    and ans: "answered (net w (length (trace w)))"
  shows "checkinStep pg p Entry w =
           (Updating i a, [ShowState StLoading],
            w\<lparr>trace := trace w @ [Get (lookupQuery pg p)], clock := Suc (clock w)\<rparr>)"
  using assms by (simp add: perform_Get answered_def split: reply.splits)

lemma update_answered:
  assumes ans: "answered (net w (length (trace w)))"
  shows "checkinStep pg p (Updating i a) w =
           (Returned,
            [RenderAttendeeDetails AttendeeDetails a,
             ShowState StSuccess,
             ShowToast (name a @ '' checked in successfully!'') TSuccess],
            w\<lparr>docs := effectOf (UpdateCheckedIn i) (clock w) (docs w),
              trace := trace w @ [UpdateCheckedIn i], clock := Suc (clock w)\<rparr>)"
  using assms by (simp add: perform_def Let_def answered_def split: reply.splits)

lemma advance_lookup_fresh:
  assumes sel: "truthy (selectedEventId pg)"
    and hit: "runQuery (lookupQuery pg p) (docs w) = [(i, a)]"
    and fresh: "\<not> checkedIn a"
    and ans: "answered (net w (length (trace w)))"
  shows "advance pg p (Entry, []) w =
           ((Updating i a, [ShowState StLoading]),
            w\<lparr>trace := trace w @ [Get (lookupQuery pg p)], clock := Suc (clock w)\<rparr>)"
  using lookup_fresh [OF assms] by (simp add: advance_def)

lemma advance_lookup_done:
  assumes sel: "truthy (selectedEventId pg)"
    and hit: "runQuery (lookupQuery pg p) (docs w) = [(i, a)]"
    and ci: "checkedIn a"
    and ans: "answered (net w (length (trace w)))"
  shows "advance pg p (Entry, []) w =
           ((Returned,
             [ShowState StLoading,
              AlreadyTime (checkInTime a),
              RenderAttendeeDetails AttendeeDetailsAlready a,
              ShowState StAlready,
              ShowToast (name a @ '' is already checked in!'') TWarning]),
            w\<lparr>trace := trace w @ [Get (lookupQuery pg p)], clock := Suc (clock w)\<rparr>)"
  using assms
  by (simp add: advance_def perform_Get answered_def split: reply.splits)

lemma advance_update:
  assumes ans: "answered (net w (length (trace w)))"
  shows "advance pg p (Updating i a, fx) w =
           ((Returned,
             fx @ [RenderAttendeeDetails AttendeeDetails a,
                   ShowState StSuccess,
                   ShowToast (name a @ '' checked in successfully!'') TSuccess]),
            w\<lparr>docs := effectOf (UpdateCheckedIn i) (clock w) (docs w),
              trace := trace w @ [UpdateCheckedIn i], clock := Suc (clock w)\<rparr>)"
  using update_answered [OF ans, of pg p i a] by (simp add: advance_def del: checkinStep.simps)

lemma advance_Returned: "advance pg p (Returned, fx) w = ((Returned, fx), w)"
  by (simp add: advance_def)

lemma overlapping_lookups:
  assumes sel: "truthy (selectedEventId pg)"
    and hit: "runQuery (lookupQuery pg p) (docs w) = [(i, a)]"
    and fresh: "\<not> checkedIn a"
    and ans: "\<forall>k<4. answered (net w (length (trace w) + k))"
  shows "firstAttempt (interleave [True, False, True, False] pg p (bothWaiting w)) = StSuccess
         \<and> secondAttempt (interleave [True, False, True, False] pg p (bothWaiting w)) = StSuccess"
proof -
  let ?q = "Get (lookupQuery pg p)"
  let ?w1 = "w\<lparr>trace := trace w @ [?q], clock := Suc (clock w)\<rparr>"
  let ?w2 = "?w1\<lparr>trace := trace ?w1 @ [?q], clock := Suc (clock ?w1)\<rparr>"
  let ?w3 = "?w2\<lparr>docs := effectOf (UpdateCheckedIn i) (clock ?w2) (docs ?w2),
                 trace := trace ?w2 @ [UpdateCheckedIn i], clock := Suc (clock ?w2)\<rparr>"
  let ?w4 = "?w3\<lparr>docs := effectOf (UpdateCheckedIn i) (clock ?w3) (docs ?w3),
                 trace := trace ?w3 @ [UpdateCheckedIn i], clock := Suc (clock ?w3)\<rparr>"
  let ?won = "\<lambda>fx. fx @ [RenderAttendeeDetails AttendeeDetails a, ShowState StSuccess,
                          ShowToast (name a @ '' checked in successfully!'') TSuccess]"
  have a0: "answered (net w (length (trace w)))"
    using ans by (auto dest: spec [of _ 0])
  have a1: "answered (net ?w1 (length (trace ?w1)))"
    using ans by (auto dest: spec [of _ 1])
  have a2: "answered (net ?w2 (length (trace ?w2)))"
    using ans by (auto dest!: spec [of _ 2] simp: numeral_eq_Suc)
  have a3: "answered (net ?w3 (length (trace ?w3)))"
    using ans by (auto dest!: spec [of _ 3] simp: numeral_eq_Suc)
  have hit1: "runQuery (lookupQuery pg p) (docs ?w1) = [(i, a)]"
    using hit by simp
  have e1: "advance pg p (Entry, []) w = ((Updating i a, [ShowState StLoading]), ?w1)"
    using sel hit fresh a0 by (rule advance_lookup_fresh)
  have e2: "advance pg p (Entry, []) ?w1 = ((Updating i a, [ShowState StLoading]), ?w2)"
    using sel hit1 fresh a1 by (rule advance_lookup_fresh)
  have e3: "advance pg p (Updating i a, [ShowState StLoading]) ?w2
              = ((Returned, ?won [ShowState StLoading]), ?w3)"
    using a2 by (rule advance_update)
  have e4: "advance pg p (Updating i a, [ShowState StLoading]) ?w3
              = ((Returned, ?won [ShowState StLoading]), ?w4)"
    using a3 by (rule advance_update)
  have run: "interleave [True, False, True, False] pg p (bothWaiting w)
               = ((Returned, ?won [ShowState StLoading]), (Returned, ?won [ShowState StLoading]), ?w4)"
    by (simp only: bothWaiting_def interleave.simps e1 e2 e3 e4 if_True if_False prod.case)
  show ?thesis
    unfolding run by (simp add: firstAttempt_def secondAttempt_def resultState_def)
qed

lemma one_after_the_other:
  assumes sel: "truthy (selectedEventId pg)"
    and hit: "runQuery (lookupQuery pg p) (docs w) = [(i, a)]"
    and fresh: "\<not> checkedIn a"
    and ans: "\<forall>k<3. answered (net w (length (trace w) + k))"
  shows "firstAttempt (interleave [True, True, False, False] pg p (bothWaiting w)) = StSuccess
         \<and> secondAttempt (interleave [True, True, False, False] pg p (bothWaiting w)) = StAlready
         \<and> AlreadyTime (Some (Suc (clock w)))
               \<in> set (snd (fst (snd (interleave [True, True, False, False] pg p (bothWaiting w)))))"
proof -
  let ?q = "Get (lookupQuery pg p)"
  let ?w1 = "w\<lparr>trace := trace w @ [?q], clock := Suc (clock w)\<rparr>"
  let ?w2 = "?w1\<lparr>docs := effectOf (UpdateCheckedIn i) (clock ?w1) (docs ?w1),
                 trace := trace ?w1 @ [UpdateCheckedIn i], clock := Suc (clock ?w1)\<rparr>"
  let ?w3 = "?w2\<lparr>trace := trace ?w2 @ [?q], clock := Suc (clock ?w2)\<rparr>"
  let ?a' = "a\<lparr>checkedIn := True, checkInTime := Some (Suc (clock w))\<rparr>"
  let ?won = "\<lambda>fx. fx @ [RenderAttendeeDetails AttendeeDetails a, ShowState StSuccess,
                          ShowToast (name a @ '' checked in successfully!'') TSuccess]"
  let ?late = "[ShowState StLoading,
                AlreadyTime (checkInTime ?a'),
                RenderAttendeeDetails AttendeeDetailsAlready ?a',
                ShowState StAlready,
                ShowToast (name ?a' @ '' is already checked in!'') TWarning]"
  have a0: "answered (net w (length (trace w)))"
    using ans by (auto dest: spec [of _ 0])
  have a1: "answered (net ?w1 (length (trace ?w1)))"
    using ans by (auto dest: spec [of _ 1])
  have a2: "answered (net ?w2 (length (trace ?w2)))"
    using ans by (auto dest!: spec [of _ 2] simp: numeral_eq_Suc)
  have "runQuery (lookupQuery pg p) (docs ?w2)
          = effectOf (UpdateCheckedIn i) (Suc (clock w)) (runQuery (lookupQuery pg p) (docs w))"
    by (simp add: runQuery_update del: effectOf.simps)
  then have hit2: "runQuery (lookupQuery pg p) (docs ?w2) = [(i, ?a')]"
    using hit by simp
  have e1: "advance pg p (Entry, []) w = ((Updating i a, [ShowState StLoading]), ?w1)"
    using sel hit fresh a0 by (rule advance_lookup_fresh)
  have e2: "advance pg p (Updating i a, [ShowState StLoading]) ?w1
              = ((Returned, ?won [ShowState StLoading]), ?w2)"
    using a1 by (rule advance_update)
  have e3: "advance pg p (Entry, []) ?w2 = ((Returned, ?late), ?w3)"
    using sel hit2 _ a2 by (rule advance_lookup_done) simp
  have run: "interleave [True, True, False, False] pg p (bothWaiting w)
               = ((Returned, ?won [ShowState StLoading]), (Returned, ?late), ?w3)"
    by (simp only: bothWaiting_def interleave.simps e1 e2 e3 advance_Returned if_True if_False
        prod.case)
  show ?thesis
    unfolding run by (simp add: firstAttempt_def secondAttempt_def resultState_def)
qed

text \<open>
  C2, as stated, fails: when both lookups are answered before either update is issued,
  both attempts show the success state, and two updates reach the store.
\<close>

theorem overlapping_check_ins_both_succeed:
  "firstAttempt (interleave [True, False, True, False] (session (Some ''E1'') []) ''1''
                   (bothWaiting (store [(3, attendeeA)] prompt))) = StSuccess
   \<and> secondAttempt (interleave [True, False, True, False] (session (Some ''E1'') []) ''1''
                   (bothWaiting (store [(3, attendeeA)] prompt))) = StSuccess
   \<and> trace (snd (snd (interleave [True, False, True, False] (session (Some ''E1'') []) ''1''
                   (bothWaiting (store [(3, attendeeA)] prompt)))))
       = [Get [(''prn'', ''1''), (''eventId'', ''E1'')], Get [(''prn'', ''1''), (''eventId'', ''E1'')],
          UpdateCheckedIn 3, UpdateCheckedIn 3]"
  by (simp add: firstAttempt_def secondAttempt_def bothWaiting_def advance_def perform_def Let_def
      session_def store_def prompt_def attendeeA_def runQuery_def matches_def fieldOf_def
      lookupQuery_def orEmpty_def truthy_def resultState_def)

text \<open>
  C2, amended. For two attempts on a code whose first match is not yet checked in, with
  an event selected and the store answering: when the second attempt starts after the
  first has finished, the first shows success and the second shows already-checked-in
  with the time the first one set; when both lookups come before both updates, both show
  success. The transition is a lookup followed by a separate update that does not look
  at the document again.
\<close>

theorem two_check_in_attempts:
  assumes sel: "truthy (selectedEventId pg)"
    and hit: "runQuery (lookupQuery pg p) (docs w) = [(i, a)]"
    and fresh: "\<not> checkedIn a"
    and ans: "\<forall>k<4. answered (net w (length (trace w) + k))"
  shows "firstAttempt (interleave [True, True, False, False] pg p (bothWaiting w)) = StSuccess
         \<and> secondAttempt (interleave [True, True, False, False] pg p (bothWaiting w)) = StAlready
         \<and> AlreadyTime (Some (Suc (clock w)))
               \<in> set (snd (fst (snd (interleave [True, True, False, False] pg p (bothWaiting w)))))
         \<and> firstAttempt (interleave [True, False, True, False] pg p (bothWaiting w)) = StSuccess
         \<and> secondAttempt (interleave [True, False, True, False] pg p (bothWaiting w)) = StSuccess"
proof -
  have three: "\<forall>k<3. answered (net w (length (trace w) + k))"
    using ans by simp
  from one_after_the_other [OF sel hit fresh three] overlapping_lookups [OF sel hit fresh ans]
  show ?thesis by blast
qed

theorem two_check_in_attempts_witness:
  "truthy (selectedEventId (session (Some ''E1'') []))
   \<and> runQuery (lookupQuery (session (Some ''E1'') []) ''1'') (docs (store [(3, attendeeA)] prompt))
       = [(3, attendeeA)]
   \<and> \<not> checkedIn attendeeA
   \<and> firstAttempt (interleave [True, True, False, False] (session (Some ''E1'') []) ''1''
                     (bothWaiting (store [(3, attendeeA)] prompt))) = StSuccess
   \<and> secondAttempt (interleave [True, True, False, False] (session (Some ''E1'') []) ''1''
                     (bothWaiting (store [(3, attendeeA)] prompt))) = StAlready"
proof -
  have sel: "truthy (selectedEventId (session (Some ''E1'') []))"
    by (simp add: truthy_def session_def)
  have hit: "runQuery (lookupQuery (session (Some ''E1'') []) ''1'')
               (docs (store [(3, attendeeA)] prompt)) = [(3, attendeeA)]"
    by (simp add: runQuery_def lookupQuery_def matches_def fieldOf_def orEmpty_def session_def
        store_def attendeeA_def)
  have fresh: "\<not> checkedIn attendeeA"
    by (simp add: attendeeA_def)
  have ans: "\<forall>k<4. answered (net (store [(3, attendeeA)] prompt)
                              (length (trace (store [(3, attendeeA)] prompt)) + k))"
    by (simp add: answered_def store_def prompt_def)
  from two_check_in_attempts [OF sel hit fresh ans] sel hit fresh show ?thesis
    by blast
qed

section \<open>The check-in time invariant\<close>

lemma runQuery_hit:
  assumes "runQuery cs ds = (i, a) # rest"
  shows "rest = [] \<and> (i, a) \<in> set ds"
proof (cases "filter (\<lambda>(i, a). matches cs a) ds")
  case Nil
  with assms show ?thesis by (simp add: runQuery_def)
next
  case (Cons x xs)
  with assms have "x = (i, a) \<and> rest = []"
    by (simp add: runQuery_def)
  moreover have "x \<in> set (filter (\<lambda>(i, a). matches cs a) ds)"
    using Cons by simp
  ultimately show ?thesis by auto
qed

lemma lookup_outcomes:
  "(resultState (fst (lookupAndCheckIn pg p w)) \<noteq> StSuccess
      \<and> docs (snd (lookupAndCheckIn pg p w)) = docs w)
   \<or> (\<exists>i a. resultState (fst (lookupAndCheckIn pg p w)) = StSuccess
          \<and> runQuery (lookupQuery pg p) (docs w) = [(i, a)] \<and> \<not> checkedIn a
          \<and> trace (snd (lookupAndCheckIn pg p w))
              = trace w @ [Get (lookupQuery pg p), UpdateCheckedIn i]
          \<and> docs (snd (lookupAndCheckIn pg p w)) = checkedInAt i (Suc (clock w)) (docs w))"
proof (cases "truthy (selectedEventId pg)")
  case False
  then show ?thesis
    by (simp add: lookupAndCheckIn_def resultState_def)
next
  case sel: True
  show ?thesis
  proof (cases "net w (length (trace w))")
    case (Refuse d c)
    with sel show ?thesis
      by (simp add: lookupAndCheckIn_def resultState_def perform_Get checkinError_def)
  next
    case Silent
    with sel show ?thesis
      by (simp add: lookupAndCheckIn_def resultState_def perform_Get)
  next
    case (Answer d)
    show ?thesis
    proof (cases "runQuery (lookupQuery pg p) (docs w)")
      case Nil
      with sel Answer show ?thesis
        by (simp add: lookupAndCheckIn_def resultState_def perform_Get)
    next
      case (Cons x rest)
      obtain i a where x: "x = (i, a)" by (cases x)
      have single: "runQuery (lookupQuery pg p) (docs w) = [(i, a)]"
        using Cons x runQuery_hit [of "lookupQuery pg p" "docs w" i a rest] by simp
      show ?thesis
      proof (cases "checkedIn a")
        case True
        with sel Answer single show ?thesis
          by (simp add: lookupAndCheckIn_def resultState_def perform_Get)
      next
        case fresh: False
        let ?w1 = "w\<lparr>trace := trace w @ [Get (lookupQuery pg p)], clock := Suc (clock w)\<rparr>"
        have s1: "checkinStep pg p Entry w = (Updating i a, [ShowState StLoading], ?w1)"
          using sel Answer single fresh by (simp add: perform_Get)
        show ?thesis
        proof (cases "net w (Suc (length (trace w)))")
          case (Answer d')
          then have "perform (UpdateCheckedIn i) ?w1 =
              (Answer d', ?w1\<lparr>docs := effectOf (UpdateCheckedIn i) (clock ?w1) (docs ?w1),
                               trace := trace ?w1 @ [UpdateCheckedIn i],
                               clock := Suc (clock ?w1)\<rparr>)"
            by (intro perform_Answer) simp
          with s1 single fresh show ?thesis
            by (simp add: lookupAndCheckIn_def resultState_def checkedInAt_def
                del: checkinStep.simps(1))
        next
          case (Refuse d' c)
          then have "perform (UpdateCheckedIn i) ?w1 =
              (Refuse d' c, ?w1\<lparr>trace := trace ?w1 @ [UpdateCheckedIn i],
                                clock := Suc (clock ?w1)\<rparr>)"
            by (simp add: perform_def Let_def)
          with s1 show ?thesis
            by (simp add: lookupAndCheckIn_def resultState_def checkinError_def
                del: checkinStep.simps(1))
        next
          case Silent
          then have "perform (UpdateCheckedIn i) ?w1 =
              (Silent, ?w1\<lparr>trace := trace ?w1 @ [UpdateCheckedIn i],
                             clock := Suc (clock ?w1)\<rparr>)"
            by (simp add: perform_def Let_def)
          with s1 show ?thesis
            by (simp add: lookupAndCheckIn_def resultState_def
                del: checkinStep.simps(1))
        qed
      qed
    qed
  qed
qed

lemma lookup_success:
  assumes sel: "truthy (selectedEventId pg)"
    and hit: "runQuery (lookupQuery pg p) (docs w) = [(i, a)]"
    and fresh: "\<not> checkedIn a"
    and a0: "answered (net w (length (trace w)))"
    and a1: "answered (net w (Suc (length (trace w))))"
  shows "resultState (fst (lookupAndCheckIn pg p w)) = StSuccess"
proof -
  let ?w1 = "w\<lparr>trace := trace w @ [Get (lookupQuery pg p)], clock := Suc (clock w)\<rparr>"
  have s1: "checkinStep pg p Entry w = (Updating i a, [ShowState StLoading], ?w1)"
    using sel hit fresh a0 by (rule lookup_fresh)
  have "answered (net ?w1 (length (trace ?w1)))"
    using a1 by simp
  note s2 = update_answered [OF this, of pg p i a]
  show ?thesis
    by (simp add: lookupAndCheckIn_def s1 s2 resultState_def del: checkinStep.simps)
qed

lemma checkedInAt_members:
  assumes "(j, b) \<in> set (checkedInAt i t ds)"
  shows "(j, b) \<in> set ds \<or> (j = i \<and> checkedIn b \<and> checkInTime b = Some t)"
  using assms by (auto simp: checkedInAt_def split: if_splits)

lemma checkedInAt_target:
  assumes "(i, a) \<in> set ds"
  shows "(i, a\<lparr>checkedIn := True, checkInTime := Some t\<rparr>) \<in> set (checkedInAt i t ds)"
  using assms by (force simp: checkedInAt_def)

lemma uploadRow_docs:
  "(uploaded (fst (uploadRow qm r (c, w))) = uploaded c
      \<and> docs (snd (uploadRow qm r (c, w))) = docs w)
   \<or> docs (snd (uploadRow qm r (c, w)))
        = docs w @ [(freshId (docs w), (docData qm r)\<lparr>createdAt := Suc (clock w)\<rparr>)]"
  by (auto simp: uploadRow_def perform_Get perform_def Let_def rowFailed_def
      split: prod.splits option.splits reply.splits if_splits)

lemma effectOf_consistent:
  assumes "allConsistent ds" and "\<And>a. op = Add a \<Longrightarrow> timeConsistent a"
  shows "allConsistent (effectOf op now ds)"
  using assms
  by (cases op) (auto simp: allConsistent_def timeConsistent_def list_all_iff split: if_splits)

lemma perform_consistent:
  assumes "allConsistent (docs w)" and "\<And>a. op = Add a \<Longrightarrow> timeConsistent a"
  shows "allConsistent (docs (snd (perform op w)))"
  using assms effectOf_consistent [of "docs w" op "clock w"]
  by (simp add: perform_def Let_def split: reply.splits)

lemma docData_consistent: "timeConsistent (docData qm r)"
  by (simp add: timeConsistent_def docData_def)

lemma checkinStep_consistent:
  assumes "allConsistent (docs w)"
  shows "allConsistent (docs (snd (snd (checkinStep pg p c w))))"
proof (cases c)
  case Entry
  let ?q = "Get (lookupQuery pg p)"
  have "allConsistent (docs (snd (perform ?q w)))"
    using assms by (rule perform_consistent) simp
  with assms Entry show ?thesis
    by (auto split: prod.splits reply.splits list.splits)
next
  case (Updating i data)
  have "allConsistent (docs (snd (perform (UpdateCheckedIn i) w)))"
    using assms by (rule perform_consistent) simp
  with Updating show ?thesis
    by (auto split: prod.splits reply.splits)
next
  case Returned
  with assms show ?thesis by simp
next
  case Suspended
  with assms show ?thesis by simp
qed

lemma lookupAndCheckIn_consistent:
  assumes "allConsistent (docs w)"
  shows "allConsistent (docs (snd (lookupAndCheckIn pg p w)))"
proof -
  obtain c1 fx1 w1 where s1: "checkinStep pg p Entry w = (c1, fx1, w1)"
    by (cases "checkinStep pg p Entry w") auto
  obtain c2 fx2 w2 where s2: "checkinStep pg p c1 w1 = (c2, fx2, w2)"
    by (cases "checkinStep pg p c1 w1") auto
  have "allConsistent (docs w1)"
    using checkinStep_consistent [OF assms, of pg p Entry] s1 by simp
  then have "allConsistent (docs w2)"
    using checkinStep_consistent [of w1 pg p c1] s2 by simp
  with s1 s2 show ?thesis by (simp add: lookupAndCheckIn_def)
qed

lemma uploadRow_consistent:
  assumes "allConsistent (docs (snd s))"
  shows "allConsistent (docs (snd (uploadRow qm r s)))"
proof -
  obtain c w where s: "s = (c, w)" by (cases s)
  let ?w1 = "snd (perform (Get [(''prn'', prn r)]) w)"
  have w1: "allConsistent (docs ?w1)"
    using assms s by (simp add: perform_Get)
  have "allConsistent (docs (snd (perform (Add (docData qm r)) ?w1)))"
    using w1 by (rule perform_consistent) (simp add: docData_consistent)
  with w1 s show ?thesis
    by (auto simp: uploadRow_def split: prod.splits option.splits)
qed

lemma uploadRows_consistent:
  "allConsistent (docs (snd s)) \<Longrightarrow> allConsistent (docs (snd (uploadRows qm rs s)))"
  by (induction rs arbitrary: s) (simp_all add: uploadRow_consistent)

lemma processAndUpload_consistent:
  assumes "allConsistent (docs w)"
  shows "allConsistent (docs (snd (processAndUpload pg w)))"
proof -
  let ?s0 = "(\<lparr>uploaded = 0, skipped = 0, failed = 0, errors = []\<rparr>,
              w\<lparr>trace := trace w @ [Get []], clock := Suc (clock w)\<rparr>)"
  have "allConsistent (docs (snd (uploadRows (qrDataMap pg) (parsedData pg) ?s0)))"
    using assms by (intro uploadRows_consistent) simp
  with assms show ?thesis
    by (auto simp: processAndUpload_def perform_Get split: prod.splits option.splits)
qed

lemma uploadRow_ops:
  "set (trace (snd (uploadRow qm r s)))
     \<subseteq> set (trace (snd s)) \<union> {Get [(''prn'', prn r)], Add (docData qm r)}"
  by (cases s) (auto simp: uploadRow_def perform_def Let_def split: prod.splits option.splits)

lemma uploadRows_ops:
  "set (trace (snd (uploadRows qm rs s)))
     \<subseteq> set (trace (snd s)) \<union> (\<Union>r \<in> set rs. {Get [(''prn'', prn r)], Add (docData qm r)})"
proof (induction rs arbitrary: s)
  case Nil
  show ?case by simp
next
  case (Cons r rs)
  show ?case using Cons.IH [of "uploadRow qm r s"] uploadRow_ops [of qm r s] by auto
qed

lemma processAndUpload_adds:
  assumes "Add a \<in> set (trace (snd (processAndUpload pg w)))" and "Add a \<notin> set (trace w)"
  shows "\<exists>r \<in> set (parsedData pg). a = docData (qrDataMap pg) r"
proof -
  let ?s0 = "(\<lparr>uploaded = 0, skipped = 0, failed = 0, errors = []\<rparr>,
              w\<lparr>trace := trace w @ [Get []], clock := Suc (clock w)\<rparr>)"
  have "set (trace (snd (processAndUpload pg w)))
          \<subseteq> set (trace w) \<union> {Get []}
             \<union> (\<Union>r \<in> set (parsedData pg). {Get [(''prn'', prn r)], Add (docData (qrDataMap pg) r)})"
    using uploadRows_ops [of "qrDataMap pg" "parsedData pg" ?s0]
    by (auto simp: processAndUpload_def perform_Get split: prod.splits option.splits)
  with assms show ?thesis by auto
qed

lemma uploadRows_docs:
  "\<exists>news. docs (snd (uploadRows qm rs s)) = docs (snd s) @ news
          \<and> list_all (\<lambda>(i, a). \<not> checkedIn a \<and> checkInTime a = None) news"
proof (induction rs arbitrary: s)
  case Nil
  show ?case by simp
next
  case (Cons r rs)
  obtain c w where s: "s = (c, w)" by (cases s)
  have "\<exists>one. docs (snd (uploadRow qm r s)) = docs (snd s) @ one
          \<and> list_all (\<lambda>(i, a). \<not> checkedIn a \<and> checkInTime a = None) one"
    using uploadRow_docs [of qm r c w] s by (auto simp: docData_def)
  then obtain one where one: "docs (snd (uploadRow qm r s)) = docs (snd s) @ one"
      "list_all (\<lambda>(i, a). \<not> checkedIn a \<and> checkInTime a = None) one"
    by blast
  from Cons.IH [of "uploadRow qm r s"] obtain news
    where news: "docs (snd (uploadRows qm rs (uploadRow qm r s)))
                   = docs (snd (uploadRow qm r s)) @ news"
      "list_all (\<lambda>(i, a). \<not> checkedIn a \<and> checkInTime a = None) news"
    by blast
  have "docs (snd (uploadRows qm (r # rs) s)) = docs (snd s) @ (one @ news)"
    using one news by simp
  moreover have "list_all (\<lambda>(i, a). \<not> checkedIn a \<and> checkInTime a = None) (one @ news)"
    using one news by simp
  ultimately show ?case by blast
qed

lemma processAndUpload_docs:
  "\<exists>news. docs (snd (processAndUpload pg w)) = docs w @ news
          \<and> list_all (\<lambda>(i, a). \<not> checkedIn a \<and> checkInTime a = None) news"
proof -
  let ?s0 = "(\<lparr>uploaded = 0, skipped = 0, failed = 0, errors = []\<rparr>,
              w\<lparr>trace := trace w @ [Get []], clock := Suc (clock w)\<rparr>)"
  have idle: "list_all (\<lambda>(i, a). \<not> checkedIn a \<and> checkInTime a = None) []"
    by simp
  from uploadRows_docs [of "qrDataMap pg" "parsedData pg" ?s0] obtain news
    where news: "docs (snd (uploadRows (qrDataMap pg) (parsedData pg) ?s0)) = docs w @ news"
      "list_all (\<lambda>(i, a). \<not> checkedIn a \<and> checkInTime a = None) news"
    by auto
  have "docs (snd (processAndUpload pg w)) = docs w
        \<or> docs (snd (processAndUpload pg w)) = docs w @ news"
    using news(1)
    by (auto simp: processAndUpload_def perform_Get split: prod.splits option.splits)
  then show ?thesis
  proof
    assume "docs (snd (processAndUpload pg w)) = docs w"
    then have "docs (snd (processAndUpload pg w)) = docs w @ []" by simp
    with idle show ?thesis by blast
  next
    assume "docs (snd (processAndUpload pg w)) = docs w @ news"
    with news(2) show ?thesis by blast
  qed
qed

lemma uploadRow_creates:
  assumes q: "withTimeout (net w (length (trace w))) 10000 = None"
    and new: "runQuery [(''prn'', prn r)] (docs w) = []"
    and a: "withTimeout (net w (Suc (length (trace w)))) 10000 = None"
  shows "uploaded (fst (uploadRow qm r (c, w))) = uploaded c + 1
         \<and> (\<exists>i a. docs (snd (uploadRow qm r (c, w))) = docs w @ [(i, a)]
                \<and> prn a = prn r \<and> \<not> checkedIn a \<and> checkInTime a = None)"
  using uploadRow_added [OF q new a, of qm c] by (simp add: docData_def)

lemma uploadRow_counted_created:
  assumes "uploaded (fst (uploadRow qm r (c, w))) = uploaded c + 1"
  shows "\<exists>i a. docs (snd (uploadRow qm r (c, w))) = docs w @ [(i, a)]
                \<and> prn a = prn r \<and> \<not> checkedIn a \<and> checkInTime a = None"
  using assms uploadRow_docs [of qm r c w] by (auto simp: docData_def)

text \<open>
  C7. A collection in which every document has \<open>checkedIn\<close> true exactly when
  \<open>checkInTime\<close> is non-null stays so under \<open>processAndUpload\<close>, under
  \<open>lookupAndCheckIn\<close> and under each of its two stretches taken alone (so also between
  the query and the update). The upload leaves the stored documents as they are and only
  appends documents with \<open>checkedIn = false\<close> and \<open>checkInTime = null\<close>: a row whose
  duplicate query finds nothing and whose two requests are answered in time is appended
  so and counted as uploaded, and a row counted as uploaded was appended so.
  \<open>lookupAndCheckIn\<close> shows success only after one update request on the matched
  document, which leaves that document with \<open>checkedIn = true\<close> and the server time in
  \<open>checkInTime\<close>; it does show success when an event is selected, the first match is
  not checked in and both requests are answered; when it does not show success the
  documents are unchanged; and every document afterwards is either as it was or has both
  fields set.
\<close>

theorem check_in_time_invariant:
  assumes inv: "allConsistent (docs w)"
  shows "allConsistent (docs (snd (processAndUpload pg w)))
         \<and> (\<exists>news. docs (snd (processAndUpload pg w)) = docs w @ news
                \<and> list_all (\<lambda>(i, a). \<not> checkedIn a \<and> checkInTime a = None) news)
         \<and> (\<forall>a. Add a \<in> set (trace (snd (processAndUpload pg w))) \<and> Add a \<notin> set (trace w)
                  \<longrightarrow> checkedIn a = False \<and> checkInTime a = None)
         \<and> (\<forall>qm r c. withTimeout (net w (length (trace w))) 10000 = None
                \<and> runQuery [(''prn'', prn r)] (docs w) = []
                \<and> withTimeout (net w (Suc (length (trace w)))) 10000 = None
              \<longrightarrow> uploaded (fst (uploadRow qm r (c, w))) = uploaded c + 1
                  \<and> (\<exists>i a. docs (snd (uploadRow qm r (c, w))) = docs w @ [(i, a)]
                         \<and> prn a = prn r \<and> \<not> checkedIn a \<and> checkInTime a = None))
         \<and> (\<forall>qm r c. uploaded (fst (uploadRow qm r (c, w))) = uploaded c + 1
              \<longrightarrow> (\<exists>i a. docs (snd (uploadRow qm r (c, w))) = docs w @ [(i, a)]
                         \<and> prn a = prn r \<and> \<not> checkedIn a \<and> checkInTime a = None))
         \<and> allConsistent (docs (snd (lookupAndCheckIn pg p w)))
         \<and> allConsistent (docs (snd (snd (checkinStep pg p pc0 w))))
         \<and> (resultState (fst (lookupAndCheckIn pg p w)) = StSuccess
              \<longrightarrow> (\<exists>i a. runQuery (lookupQuery pg p) (docs w) = [(i, a)] \<and> \<not> checkedIn a
                     \<and> trace (snd (lookupAndCheckIn pg p w))
                         = trace w @ [Get (lookupQuery pg p), UpdateCheckedIn i]
                     \<and> docs (snd (lookupAndCheckIn pg p w)) = checkedInAt i (Suc (clock w)) (docs w)
                     \<and> (i, a\<lparr>checkedIn := True, checkInTime := Some (Suc (clock w))\<rparr>)
                           \<in> set (docs (snd (lookupAndCheckIn pg p w)))))
         \<and> (resultState (fst (lookupAndCheckIn pg p w)) \<noteq> StSuccess
              \<longrightarrow> docs (snd (lookupAndCheckIn pg p w)) = docs w)
         \<and> (\<forall>i a. truthy (selectedEventId pg)
                \<and> runQuery (lookupQuery pg p) (docs w) = [(i, a)] \<and> \<not> checkedIn a
                \<and> answered (net w (length (trace w)))
                \<and> answered (net w (Suc (length (trace w))))
              \<longrightarrow> resultState (fst (lookupAndCheckIn pg p w)) = StSuccess)
         \<and> (\<forall>j b. (j, b) \<in> set (docs (snd (lookupAndCheckIn pg p w)))
              \<longrightarrow> (j, b) \<in> set (docs w)
                  \<or> (checkedIn b \<and> checkInTime b = Some (Suc (clock w))))"
proof -
  have adds: "\<forall>a. Add a \<in> set (trace (snd (processAndUpload pg w))) \<and> Add a \<notin> set (trace w)
                  \<longrightarrow> checkedIn a = False \<and> checkInTime a = None"
  proof (intro allI impI)
    fix a
    assume "Add a \<in> set (trace (snd (processAndUpload pg w))) \<and> Add a \<notin> set (trace w)"
    then obtain r where "a = docData (qrDataMap pg) r"
      using processAndUpload_adds [of a pg w] by blast
    then show "checkedIn a = False \<and> checkInTime a = None"
      by (simp add: docData_def)
  qed
  have creates: "\<forall>qm r c. withTimeout (net w (length (trace w))) 10000 = None
                \<and> runQuery [(''prn'', prn r)] (docs w) = []
                \<and> withTimeout (net w (Suc (length (trace w)))) 10000 = None
              \<longrightarrow> uploaded (fst (uploadRow qm r (c, w))) = uploaded c + 1
                  \<and> (\<exists>i a. docs (snd (uploadRow qm r (c, w))) = docs w @ [(i, a)]
                         \<and> prn a = prn r \<and> \<not> checkedIn a \<and> checkInTime a = None)"
    using uploadRow_creates by blast
  have counted: "\<forall>qm r c. uploaded (fst (uploadRow qm r (c, w))) = uploaded c + 1
              \<longrightarrow> (\<exists>i a. docs (snd (uploadRow qm r (c, w))) = docs w @ [(i, a)]
                         \<and> prn a = prn r \<and> \<not> checkedIn a \<and> checkInTime a = None)"
    using uploadRow_counted_created by blast
  have success: "resultState (fst (lookupAndCheckIn pg p w)) = StSuccess
              \<longrightarrow> (\<exists>i a. runQuery (lookupQuery pg p) (docs w) = [(i, a)] \<and> \<not> checkedIn a
                     \<and> trace (snd (lookupAndCheckIn pg p w))
                         = trace w @ [Get (lookupQuery pg p), UpdateCheckedIn i]
                     \<and> docs (snd (lookupAndCheckIn pg p w)) = checkedInAt i (Suc (clock w)) (docs w)
                     \<and> (i, a\<lparr>checkedIn := True, checkInTime := Some (Suc (clock w))\<rparr>)
                           \<in> set (docs (snd (lookupAndCheckIn pg p w))))"
  proof
    assume ok: "resultState (fst (lookupAndCheckIn pg p w)) = StSuccess"
    with lookup_outcomes [of pg p w] obtain i a
      where hit: "runQuery (lookupQuery pg p) (docs w) = [(i, a)]" and fresh: "\<not> checkedIn a"
        and tr: "trace (snd (lookupAndCheckIn pg p w))
                   = trace w @ [Get (lookupQuery pg p), UpdateCheckedIn i]"
        and ds: "docs (snd (lookupAndCheckIn pg p w)) = checkedInAt i (Suc (clock w)) (docs w)"
      by auto
    have "(i, a) \<in> set (docs w)"
      using runQuery_hit [of "lookupQuery pg p" "docs w" i a "[]"] hit by simp
    then have "(i, a\<lparr>checkedIn := True, checkInTime := Some (Suc (clock w))\<rparr>)
                 \<in> set (docs (snd (lookupAndCheckIn pg p w)))"
      unfolding ds by (rule checkedInAt_target)
    with hit fresh tr ds
    show "\<exists>i a. runQuery (lookupQuery pg p) (docs w) = [(i, a)] \<and> \<not> checkedIn a
                     \<and> trace (snd (lookupAndCheckIn pg p w))
                         = trace w @ [Get (lookupQuery pg p), UpdateCheckedIn i]
                     \<and> docs (snd (lookupAndCheckIn pg p w)) = checkedInAt i (Suc (clock w)) (docs w)
                     \<and> (i, a\<lparr>checkedIn := True, checkInTime := Some (Suc (clock w))\<rparr>)
                           \<in> set (docs (snd (lookupAndCheckIn pg p w)))"
      by blast
  qed
  have untouched: "resultState (fst (lookupAndCheckIn pg p w)) \<noteq> StSuccess
              \<longrightarrow> docs (snd (lookupAndCheckIn pg p w)) = docs w"
    using lookup_outcomes [of pg p w] by auto
  have happens: "\<forall>i a. truthy (selectedEventId pg)
                \<and> runQuery (lookupQuery pg p) (docs w) = [(i, a)] \<and> \<not> checkedIn a
                \<and> answered (net w (length (trace w)))
                \<and> answered (net w (Suc (length (trace w))))
              \<longrightarrow> resultState (fst (lookupAndCheckIn pg p w)) = StSuccess"
    using lookup_success by blast
  have whole: "\<forall>j b. (j, b) \<in> set (docs (snd (lookupAndCheckIn pg p w)))
              \<longrightarrow> (j, b) \<in> set (docs w)
                  \<or> (checkedIn b \<and> checkInTime b = Some (Suc (clock w)))"
  proof (intro allI impI)
    fix j b
    assume mem: "(j, b) \<in> set (docs (snd (lookupAndCheckIn pg p w)))"
    from lookup_outcomes [of pg p w]
    show "(j, b) \<in> set (docs w) \<or> (checkedIn b \<and> checkInTime b = Some (Suc (clock w)))"
    proof
      assume "resultState (fst (lookupAndCheckIn pg p w)) \<noteq> StSuccess
                \<and> docs (snd (lookupAndCheckIn pg p w)) = docs w"
      with mem show ?thesis by simp
    next
      assume "\<exists>i a. resultState (fst (lookupAndCheckIn pg p w)) = StSuccess
          \<and> runQuery (lookupQuery pg p) (docs w) = [(i, a)] \<and> \<not> checkedIn a
          \<and> trace (snd (lookupAndCheckIn pg p w))
              = trace w @ [Get (lookupQuery pg p), UpdateCheckedIn i]
          \<and> docs (snd (lookupAndCheckIn pg p w)) = checkedInAt i (Suc (clock w)) (docs w)"
      then obtain i where "docs (snd (lookupAndCheckIn pg p w)) = checkedInAt i (Suc (clock w)) (docs w)"
        by blast
      with mem checkedInAt_members [of j b i "Suc (clock w)" "docs w"] show ?thesis
        by auto
    qed
  qed
  from processAndUpload_consistent [OF inv] processAndUpload_docs [of pg w] adds creates counted
    lookupAndCheckIn_consistent [OF inv] checkinStep_consistent [OF inv]
    success untouched happens whole
  show ?thesis by blast
qed

theorem check_in_time_invariant_witness:
  "allConsistent (docs (store [(3, attendeeA)] prompt))
   \<and> allConsistent (docs (snd (processAndUpload (session (Some ''E1'') [rowB])
                                  (store [(3, attendeeA)] prompt))))
   \<and> trace (snd (processAndUpload (session (Some ''E1'') [rowB]) (store [(3, attendeeA)] prompt)))
       = [Get [], Get [(''prn'', ''2'')], Add (docData Map.empty rowB)]
   \<and> map fst (docs (snd (processAndUpload (session (Some ''E1'') [rowB])
                            (store [(3, attendeeA)] prompt)))) = [3, 4]
   \<and> resultState (fst (lookupAndCheckIn (session (Some ''E1'') [rowB]) ''1''
                          (store [(3, attendeeA)] prompt))) = StSuccess
   \<and> docs (snd (lookupAndCheckIn (session (Some ''E1'') [rowB]) ''1''
                  (store [(3, attendeeA)] prompt)))
       = [(3, attendeeA\<lparr>checkedIn := True, checkInTime := Some 1\<rparr>)]
   \<and> allConsistent (docs (snd (lookupAndCheckIn (session (Some ''E1'') [rowB]) ''1''
                                  (store [(3, attendeeA)] prompt))))"
proof -
  let ?pg = "session (Some ''E1'') [rowB]"
  let ?w = "store [(3, attendeeA)] prompt"
  have inv: "allConsistent (docs ?w)"
    by (simp add: allConsistent_def timeConsistent_def store_def attendeeA_def)
  note inst = check_in_time_invariant [OF inv, of ?pg "''1''" Entry]
  have sel: "truthy (selectedEventId ?pg)"
    by (simp add: truthy_def session_def)
  have hit: "runQuery (lookupQuery ?pg ''1'') (docs ?w) = [(3, attendeeA)]"
    by (simp add: runQuery_def lookupQuery_def matches_def fieldOf_def orEmpty_def session_def
        store_def attendeeA_def)
  have fresh: "\<not> checkedIn attendeeA"
    by (simp add: attendeeA_def)
  have a0: "answered (net ?w (length (trace ?w)))"
    by (simp add: answered_def store_def prompt_def)
  have a1: "answered (net ?w (Suc (length (trace ?w))))"
    by (simp add: answered_def store_def prompt_def)
  have ok: "resultState (fst (lookupAndCheckIn ?pg ''1'' ?w)) = StSuccess"
    using inst sel hit fresh a0 a1 by blast
  with inst hit have "docs (snd (lookupAndCheckIn ?pg ''1'' ?w))
      = checkedInAt 3 (Suc (clock ?w)) (docs ?w)"
    by auto
  then have after: "docs (snd (lookupAndCheckIn ?pg ''1'' ?w))
      = [(3, attendeeA\<lparr>checkedIn := True, checkInTime := Some 1\<rparr>)]"
    by (simp add: checkedInAt_def store_def)
  have tr: "trace (snd (processAndUpload ?pg ?w))
       = [Get [], Get [(''prn'', ''2'')], Add (docData Map.empty rowB)]"
    by (simp add: processAndUpload_def uploadRow_def perform_def Let_def session_def store_def
        prompt_def rowB_def attendeeA_def runQuery_def matches_def fieldOf_def docData_def)
  have ids: "map fst (docs (snd (processAndUpload ?pg ?w))) = [3, 4]"
    by (simp add: processAndUpload_def uploadRow_def perform_def Let_def session_def store_def
        prompt_def rowB_def attendeeA_def runQuery_def matches_def fieldOf_def docData_def
        freshId_def)
  from inst inv ok after tr ids show ?thesis
    by blast
qed

section \<open>Roster upload: blank names and PRNs\<close>

lemma firstStrip_code:
  assumes "c \<in> set whiteSpace"
  shows "firstStrip whiteSpace (c @ s) = Some s"
  using assms unfolding whiteSpace_def by (elim disjE | simp)+

lemma code_nonempty: "c \<in> set whiteSpace \<Longrightarrow> c \<noteq> []"
  by (auto simp: whiteSpace_def)

lemma stripAll_Nil: "stripAll codes [] = []"
  by (simp add: stripAll.simps split: option.splits)

lemma stripAll_blank:
  assumes "whitespaceOnly s"
  shows "stripAll whiteSpace s = []"
  using assms
proof (induction rule: whitespaceOnly.induct)
  case empty
  show ?case by (rule stripAll_Nil)
next
  case (more c s)
  have "firstStrip whiteSpace (c @ s) = Some s"
    using more.hyps(1) by (rule firstStrip_code)
  moreover have "length s < length (c @ s)"
    using code_nonempty [OF more.hyps(1)] by simp
  ultimately have "stripAll whiteSpace (c @ s) = stripAll whiteSpace s"
    by (subst stripAll.simps) simp
  with more.IH show ?case by simp
qed

lemma trim_blank: "whitespaceOnly s \<Longrightarrow> trim s = []"
  by (simp add: trim_def stripAll_blank stripAll_Nil)

lemma two_blanks: "whitespaceOnly ''  ''"
proof -
  have "whitespaceOnly ('' '' @ '' '' @ [])"
    by (intro whitespaceOnly.intros) (simp_all add: whiteSpace_def)
  then show ?thesis by simp
qed

lemma one_blank: "whitespaceOnly '' ''"
proof -
  have "whitespaceOnly ('' '' @ [])"
    by (intro whitespaceOnly.intros) (simp_all add: whiteSpace_def)
  then show ?thesis by simp
qed

text \<open>
  C10, as stated, fails: a row whose name is one blank and whose prn is empty has a name
  consisting only of whitespace, yet the filter drops it, and a roster holding only that
  row is rejected with \<open>"CSV has no valid rows"\<close>.
\<close>

theorem whitespace_name_row_dropped:
  "cell blankNameRow ''name'' = Some '' ''
   \<and> whitespaceOnly '' ''
   \<and> onFileReady qrOf allColumns [blankNameRow] (session (Some ''E1'') [])
       = ([ShowToast ''CSV has no valid rows'' TError], session (Some ''E1'') [])"
  using one_blank
  by (simp add: onFileReady_def missingColumns_def REQUIRED_COLUMNS_def allColumns_def
      toLowerCase_def lowerChar_def keepRow_def cell_def truthy_def blankNameRow_def
      resetUpload_def session_def)

lemma keepRow_rawPresent: "keepRow r = (rawPresent r ''name'' \<and> rawPresent r ''prn'')"
  by (auto simp: keepRow_def rawPresent_def truthy_def cell_def split: option.splits)

lemma cleanRow_trimmedRow: "cleanRow r = trimmedRow r"
  by (simp add: cleanRow_def trimmedRow_def orEmpty_def cell_def)

lemma parsedData_onFileReady:
  assumes hdr: "set REQUIRED_COLUMNS \<subseteq> toLowerCase ` set metaFields"
  shows "parsedData (snd (onFileReady generateQRCode metaFields rows pg))
           = map trimmedRow (filter (\<lambda>r. rawPresent r ''name'' \<and> rawPresent r ''prn'') rows)"
proof -
  have none: "missingColumns metaFields = []"
    using hdr by (simp add: missingColumns_empty_iff)
  have same: "map cleanRow (filter keepRow rows)
                = map trimmedRow (filter (\<lambda>r. rawPresent r ''name'' \<and> rawPresent r ''prn'') rows)"
    by (simp add: keepRow_rawPresent cleanRow_trimmedRow cong: filter_cong)
  have "parsedData (snd (onFileReady generateQRCode metaFields rows pg))
          = map cleanRow (filter keepRow rows)"
    using none
    by (cases "filter keepRow rows") (simp_all add: onFileReady_def Let_def resetUpload_def)
  then show ?thesis
    by (simp only: same)
qed

text \<open>
  C10, amended. With all required columns present, \<open>parsedData\<close> is exactly the rows
  whose raw name and raw prn are both present and non-empty, in order, each with its
  five fields trimmed. So a row with both raw cells non-empty is kept even when its name
  (or its prn) consists only of whitespace, and then has the empty string there; a row
  whose name or prn is missing or empty is dropped wherever it stands in the roster,
  whatever its other cells hold; and when the duplicate query and the add of a kept row
  are answered in time and no stored attendee has its prn, the loop body appends a
  document with the row's trimmed name and prn.
\<close>

theorem raw_nonempty_rows_survive:
  assumes hdr: "set REQUIRED_COLUMNS \<subseteq> toLowerCase ` set metaFields"
  shows "parsedData (snd (onFileReady generateQRCode metaFields rows pg))
           = map trimmedRow (filter (\<lambda>r. rawPresent r ''name'' \<and> rawPresent r ''prn'') rows)
         \<and> (\<forall>r n q. r \<in> set rows \<and> map_of r ''name'' = Some n \<and> n \<noteq> []
                     \<and> map_of r ''prn'' = Some q \<and> q \<noteq> []
              \<longrightarrow> trimmedRow r \<in> set (parsedData (snd (onFileReady generateQRCode metaFields rows pg)))
                  \<and> name (trimmedRow r) = trim n \<and> prn (trimmedRow r) = trim q
                  \<and> (whitespaceOnly n \<longrightarrow> name (trimmedRow r) = [])
                  \<and> (whitespaceOnly q \<longrightarrow> prn (trimmedRow r) = []))
         \<and> (\<forall>r before after.
               map_of r ''name'' = None \<or> map_of r ''name'' = Some []
               \<or> map_of r ''prn'' = None \<or> map_of r ''prn'' = Some []
              \<longrightarrow> parsedData (snd (onFileReady generateQRCode metaFields (before @ r # after) pg))
                  = parsedData (snd (onFileReady generateQRCode metaFields (before @ after) pg)))
         \<and> (\<forall>qm k c w. withTimeout (net w (length (trace w))) 10000 = None
                \<and> runQuery [(''prn'', prn k)] (docs w) = []
                \<and> withTimeout (net w (Suc (length (trace w)))) 10000 = None
              \<longrightarrow> (\<exists>i a. docs (snd (uploadRow qm k (c, w))) = docs w @ [(i, a)]
                         \<and> name a = name k \<and> prn a = prn k))"
proof -
  have parsed: "\<And>rs. parsedData (snd (onFileReady generateQRCode metaFields rs pg))
           = map trimmedRow (filter (\<lambda>r. rawPresent r ''name'' \<and> rawPresent r ''prn'') rs)"
    using hdr by (rule parsedData_onFileReady)
  have kept: "\<forall>r n q. r \<in> set rows \<and> map_of r ''name'' = Some n \<and> n \<noteq> []
                     \<and> map_of r ''prn'' = Some q \<and> q \<noteq> []
              \<longrightarrow> trimmedRow r \<in> set (parsedData (snd (onFileReady generateQRCode metaFields rows pg)))
                  \<and> name (trimmedRow r) = trim n \<and> prn (trimmedRow r) = trim q
                  \<and> (whitespaceOnly n \<longrightarrow> name (trimmedRow r) = [])
                  \<and> (whitespaceOnly q \<longrightarrow> prn (trimmedRow r) = [])"
  proof (intro allI impI)
    fix r n q
    assume a: "r \<in> set rows \<and> map_of r ''name'' = Some n \<and> n \<noteq> []
                     \<and> map_of r ''prn'' = Some q \<and> q \<noteq> []"
    then have "rawPresent r ''name'' \<and> rawPresent r ''prn''"
      by (simp add: rawPresent_def)
    with a have member: "trimmedRow r \<in> set (parsedData (snd (onFileReady generateQRCode metaFields rows pg)))"
      by (simp add: parsed)
    have fields: "name (trimmedRow r) = trim n \<and> prn (trimmedRow r) = trim q"
      using a by (simp add: trimmedRow_def)
    from member fields trim_blank
    show "trimmedRow r \<in> set (parsedData (snd (onFileReady generateQRCode metaFields rows pg)))
                  \<and> name (trimmedRow r) = trim n \<and> prn (trimmedRow r) = trim q
                  \<and> (whitespaceOnly n \<longrightarrow> name (trimmedRow r) = [])
                  \<and> (whitespaceOnly q \<longrightarrow> prn (trimmedRow r) = [])"
      by simp
  qed
  have dropped: "\<forall>r before after.
               map_of r ''name'' = None \<or> map_of r ''name'' = Some []
               \<or> map_of r ''prn'' = None \<or> map_of r ''prn'' = Some []
              \<longrightarrow> parsedData (snd (onFileReady generateQRCode metaFields (before @ r # after) pg))
                  = parsedData (snd (onFileReady generateQRCode metaFields (before @ after) pg))"
  proof (intro allI impI)
    fix r :: csv_row and before after :: "csv_row list"
    assume "map_of r ''name'' = None \<or> map_of r ''name'' = Some []
               \<or> map_of r ''prn'' = None \<or> map_of r ''prn'' = Some []"
    then have "\<not> (rawPresent r ''name'' \<and> rawPresent r ''prn'')"
      by (auto simp: rawPresent_def)
    then show "parsedData (snd (onFileReady generateQRCode metaFields (before @ r # after) pg))
                  = parsedData (snd (onFileReady generateQRCode metaFields (before @ after) pg))"
      by (simp add: parsed)
  qed
  have stored: "\<forall>qm k c w. withTimeout (net w (length (trace w))) 10000 = None
                \<and> runQuery [(''prn'', prn k)] (docs w) = []
                \<and> withTimeout (net w (Suc (length (trace w)))) 10000 = None
              \<longrightarrow> (\<exists>i a. docs (snd (uploadRow qm k (c, w))) = docs w @ [(i, a)]
                         \<and> name a = name k \<and> prn a = prn k)"
    by (simp add: uploadRow_added docData_def)
  from parsed [of rows] kept dropped stored show ?thesis
    by blast
qed

theorem raw_nonempty_rows_survive_witness:
  "set REQUIRED_COLUMNS \<subseteq> toLowerCase ` set allColumns
   \<and> map_of blankNameOnly ''name'' = Some ''  '' \<and> whitespaceOnly ''  ''
   \<and> map_of blankNameOnly ''prn'' = Some ''7''
   \<and> map_of blankNameRow ''prn'' = Some []
   \<and> parsedData (snd (onFileReady qrOf allColumns [blankNameOnly, blankNameRow] (session (Some ''E1'') [])))
       = [\<lparr>name = [], prn = ''7'', email = ''a@x.com'', mobile = ''1'', year = ''FE''\<rparr>]"
proof -
  have hdr: "set REQUIRED_COLUMNS \<subseteq> toLowerCase ` set allColumns"
    by (simp add: REQUIRED_COLUMNS_def allColumns_def toLowerCase_def lowerChar_def)
  have nm: "map_of blankNameOnly ''name'' = Some ''  ''"
    by (simp add: blankNameOnly_def)
  have pr: "map_of blankNameOnly ''prn'' = Some ''7''"
    by (simp add: blankNameOnly_def)
  have gone: "map_of blankNameRow ''prn'' = Some []"
    by (simp add: blankNameRow_def)
  have keep: "rawPresent blankNameOnly ''name'' \<and> rawPresent blankNameOnly ''prn''"
    using nm pr by (simp add: rawPresent_def)
  have drop: "\<not> rawPresent blankNameRow ''prn''"
    using gone by (simp add: rawPresent_def)
  have row: "trimmedRow blankNameOnly
      = \<lparr>name = [], prn = ''7'', email = ''a@x.com'', mobile = ''1'', year = ''FE''\<rparr>"
    using trim_blank [OF two_blanks]
    by (simp add: trimmedRow_def blankNameOnly_def)
       (simp add: trim_def whiteSpace_def stripAll.simps)
  from raw_nonempty_rows_survive [OF hdr, of qrOf "[blankNameOnly, blankNameRow]" "session (Some ''E1'') []"]
  have "parsedData (snd (onFileReady qrOf allColumns [blankNameOnly, blankNameRow] (session (Some ''E1'') [])))
       = map trimmedRow (filter (\<lambda>r. rawPresent r ''name'' \<and> rawPresent r ''prn'') [blankNameOnly, blankNameRow])"
    by blast
  then have "parsedData (snd (onFileReady qrOf allColumns [blankNameOnly, blankNameRow] (session (Some ''E1'') [])))
       = [\<lparr>name = [], prn = ''7'', email = ''a@x.com'', mobile = ''1'', year = ''FE''\<rparr>]"
    using keep drop row by simp
  with hdr nm pr gone two_blanks show ?thesis
    by blast
qed

end
